theory Spec2Isabelle
  imports Main "HOL-Library.Char_ord" "HOL-Library.List_Lexorder" "HOL-Library.Product_Lexorder"
begin

section \<open>Merchant Risk Review Workbench: the tables\<close>

text \<open>
  The program is \<^verbatim>\<open>Merchant_Risk_Model_App.py\<close>: two read queries and one MERGE
  statement against two tables, and a form handler that builds and runs the MERGE.
  The queries are embedded operator by operator: a table is the list of its rows (the
  list order stands for the order in which the engine happens to visit the rows, which
  is what decides ties of \<^verbatim>\<open>ROW_NUMBER\<close> and \<^verbatim>\<open>ORDER BY\<close>), a nullable value is an
  \<open>option\<close> with \<open>None\<close> for NULL, and the clock (\<^verbatim>\<open>CURRENT_DATE()\<close>,
  \<^verbatim>\<open>CURRENT_TIMESTAMP()\<close>) is an argument. The functions are the bodies of
  \<^verbatim>\<open>load_review_queue\<close> and \<^verbatim>\<open>load_monitoring_data\<close>; the memo that
  \<^verbatim>\<open>st.cache_data\<close> keeps of their results is not part of the model.

  A date is a day number (days since 1970-01-01) and a timestamp a number of seconds
  since 1970-01-01 00:00:00; a date compared with a timestamp is its midnight. A risk
  score is an integer.
\<close>

type_synonym date = int
type_synonym timestamp = int

definition timestamp_of_date :: "date \<Rightarrow> timestamp" where
  "timestamp_of_date d = d * 86400"

definition dateadd_day :: "int \<Rightarrow> date \<Rightarrow> date" where
  "dateadd_day n d = d + n"

text \<open>\<^verbatim>\<open>MERCHANT_RISK_SCORES\<close>, as far as the program reads it.\<close>

record risk_row =
  s_merchant_description :: string
  s_risk_score :: int
  s_reason_codes :: string
  s_week_start_date :: date
  s_high_risk_merchant :: string

text \<open>
  \<^verbatim>\<open>MERCHANT_REVIEW_STATUS\<close>, with the seven columns the program names.
  \<^verbatim>\<open>REVIEW_DATE\<close> is nullable in the model because the INSERT branch of the MERGE
  does not supply it; the six columns that the MERGE always supplies are not. The
  status column holds text: the program compares it with string constants.
\<close>

record review_row =
  t_merchant_description :: string
  t_status :: string
  t_notes :: string
  t_reviewer :: string
  t_risk_score :: int
  t_week_start_date :: date
  t_review_date :: "timestamp option"

subsection \<open>SQL's three-valued conditions\<close>

definition sql_eq :: "'a option \<Rightarrow> 'a option \<Rightarrow> bool option" where
  "sql_eq a b = (case (a, b) of (Some x, Some y) \<Rightarrow> Some (x = y) | _ \<Rightarrow> None)"

definition sql_le :: "int option \<Rightarrow> int option \<Rightarrow> bool option" where
  "sql_le a b = (case (a, b) of (Some x, Some y) \<Rightarrow> Some (x \<le> y) | _ \<Rightarrow> None)"

definition sql_is_null :: "'a option \<Rightarrow> bool option" where
  "sql_is_null a = Some (a = None)"

fun sql_and :: "bool option \<Rightarrow> bool option \<Rightarrow> bool option" where
  "sql_and (Some False) _ = Some False"
| "sql_and _ (Some False) = Some False"
| "sql_and (Some True) (Some True) = Some True"
| "sql_and _ _ = None"

fun sql_or :: "bool option \<Rightarrow> bool option \<Rightarrow> bool option" where
  "sql_or (Some True) _ = Some True"
| "sql_or _ (Some True) = Some True"
| "sql_or (Some False) (Some False) = Some False"
| "sql_or _ _ = None"

text \<open>A WHERE clause keeps the rows whose condition is TRUE (not FALSE, not NULL).\<close>

definition sql_where :: "('a \<Rightarrow> bool option) \<Rightarrow> 'a list \<Rightarrow> 'a list" where
  "sql_where c rows = filter (\<lambda>r. c r = Some True) rows"

text \<open>
  \<^verbatim>\<open>x ILIKE p\<close> for a pattern without wildcards (\<^verbatim>\<open>'true'\<close> has none): equality up to
  the case of the letters.
\<close>

definition lower_char :: "char \<Rightarrow> char" where
  "lower_char c =
     (case map_of (zip ''ABCDEFGHIJKLMNOPQRSTUVWXYZ'' ''abcdefghijklmnopqrstuvwxyz'') c of
        Some l \<Rightarrow> l
      | None \<Rightarrow> c)"

definition ilike :: "string \<Rightarrow> string \<Rightarrow> bool" where
  "ilike x p = (map lower_char x = map lower_char p)"

section \<open>load\_review\_queue\<close>

text \<open>
  \<^verbatim>\<open>
  WITH latest_reviews AS (
      SELECT MERCHANT_DESCRIPTION, STATUS, REVIEW_DATE
      FROM (
          SELECT *, ROW_NUMBER() OVER(PARTITION BY MERCHANT_DESCRIPTION
                                      ORDER BY REVIEW_DATE DESC) as rn
          FROM MERCHANT_REVIEW_STATUS
      )
      WHERE rn = 1
  )
  \<close>
  \<^verbatim>\<open>ORDER BY REVIEW_DATE DESC\<close> puts NULL first (the engine's default for a descending
  order) and then the later timestamp before the earlier one; rows that agree stay in
  the order of the list. The key below is sorted ascending to that effect.
\<close>

record latest_review =
  r_merchant_description :: string
  r_status :: string
  r_review_date :: "timestamp option"

fun review_date_desc :: "timestamp option \<Rightarrow> nat \<times> int" where
  "review_date_desc None = (0, 0)"
| "review_date_desc (Some t) = (1, - t)"

definition partition_by_merchant :: "review_row list \<Rightarrow> string \<Rightarrow> review_row list" where
  "partition_by_merchant tbl m = filter (\<lambda>t. t_merchant_description t = m) tbl"

definition row_number :: "review_row list \<Rightarrow> (review_row \<times> nat) list" where
  "row_number part =
     zip (sort_key (\<lambda>t. review_date_desc (t_review_date t)) part) [1 ..< Suc (length part)]"

definition select_latest :: "review_row \<Rightarrow> latest_review" where
  "select_latest t =
     \<lparr>r_merchant_description = t_merchant_description t,
      r_status = t_status t,
      r_review_date = t_review_date t\<rparr>"

definition latest_reviews :: "review_row list \<Rightarrow> latest_review list" where
  "latest_reviews tbl =
     concat (map (\<lambda>m. map (\<lambda>(t, rn). select_latest t)
                        (filter (\<lambda>(t, rn). rn = 1) (row_number (partition_by_merchant tbl m))))
                 (remdups (map t_merchant_description tbl)))"

text \<open>
  \<^verbatim>\<open>FROM MERCHANT_RISK_SCORES s LEFT JOIN latest_reviews r
       ON s.MERCHANT_DESCRIPTION = r.MERCHANT_DESCRIPTION\<close>:
  every risk row with each review it matches, or once with NULLs when it matches none.
\<close>

definition left_join :: "risk_row list \<Rightarrow> latest_review list \<Rightarrow> (risk_row \<times> latest_review option) list" where
  "left_join ss rs =
     concat (map (\<lambda>s. case filter (\<lambda>r. s_merchant_description s = r_merchant_description r) rs of
                         [] \<Rightarrow> [(s, None)]
                       | ms \<Rightarrow> map (\<lambda>r. (s, Some r)) ms) ss)"

text \<open>
  \<^verbatim>\<open>
  WHERE s.HIGH_RISK_MERCHANT::STRING ILIKE 'true'
  AND (
      r.STATUS IS NULL OR
      (r.STATUS = 'Reviewed - Benign' AND r.REVIEW_DATE <= DATEADD(day, -90, CURRENT_DATE())) OR
      r.STATUS = 'Pending Investigation'
  )
  \<close>
  \<open>s_high_risk_merchant\<close> is the flag after the cast to STRING.
\<close>

definition queue_condition :: "date \<Rightarrow> risk_row \<times> latest_review option \<Rightarrow> bool option" where
  "queue_condition current_date = (\<lambda>(s, r).
     let r_STATUS = map_option r_status r;
         r_REVIEW_DATE = Option.bind r r_review_date
     in sql_and (Some (ilike (s_high_risk_merchant s) ''true''))
          (sql_or
             (sql_or (sql_is_null r_STATUS)
                (sql_and (sql_eq r_STATUS (Some ''Reviewed - Benign''))
                   (sql_le r_REVIEW_DATE
                      (Some (timestamp_of_date (dateadd_day (- 90) current_date))))))
             (sql_eq r_STATUS (Some ''Pending Investigation''))))"

text \<open>The rows of the result: the four selected columns of the risk row.\<close>

record queue_row =
  q_merchant_description :: string
  q_risk_score :: int
  q_reason_codes :: string
  q_week_start_date :: date

definition select_queue :: "risk_row \<times> latest_review option \<Rightarrow> queue_row" where
  "select_queue = (\<lambda>(s, r).
     \<lparr>q_merchant_description = s_merchant_description s,
      q_risk_score = s_risk_score s,
      q_reason_codes = s_reason_codes s,
      q_week_start_date = s_week_start_date s\<rparr>)"

text \<open>\<^verbatim>\<open>ORDER BY s.RISK_SCORE DESC\<close>, rows of equal score in the order they arrive.\<close>

definition order_by_risk_score_desc ::
  "(risk_row \<times> latest_review option) list \<Rightarrow> (risk_row \<times> latest_review option) list" where
  "order_by_risk_score_desc rows = sort_key (\<lambda>(s, r). - s_risk_score s) rows"

definition load_review_queue :: "date \<Rightarrow> risk_row list \<Rightarrow> review_row list \<Rightarrow> queue_row list" where
  "load_review_queue current_date scores reviews =
     map select_queue
       (order_by_risk_score_desc
          (sql_where (queue_condition current_date)
             (left_join scores (latest_reviews reviews))))"

section \<open>load\_monitoring\_data\<close>

text \<open>
  \<^verbatim>\<open>
  SELECT DATE_TRUNC('week', WEEK_START_DATE)::DATE AS REVIEW_WEEK,
         STATUS,
         COUNT(*) AS MERCHANT_COUNT
  FROM MERCHANT_REVIEW_STATUS
  GROUP BY 1, 2
  ORDER BY 1 DESC, 2;
  \<close>
  A week starts on Monday; day 0 (1970-01-01) is a Thursday, so day 4 is a Monday.
\<close>

definition date_trunc_week :: "date \<Rightarrow> date" where
  "date_trunc_week d = d - (d + 3) mod 7"

record monitoring_row =
  review_week :: date
  status :: string
  merchant_count :: nat

definition group_key :: "review_row \<Rightarrow> date \<times> string" where
  "group_key t = (date_trunc_week (t_week_start_date t), t_status t)"

definition group_by_count :: "review_row list \<Rightarrow> monitoring_row list" where
  "group_by_count tbl =
     map (\<lambda>(w, st). \<lparr>review_week = w, status = st,
                       merchant_count = length (filter (\<lambda>t. group_key t = (w, st)) tbl)\<rparr>)
         (remdups (map group_key tbl))"

text \<open>\<^verbatim>\<open>ORDER BY 1 DESC, 2\<close>: the week descending, then the status ascending.\<close>

definition load_monitoring_data :: "review_row list \<Rightarrow> monitoring_row list" where
  "load_monitoring_data tbl =
     sort_key (\<lambda>g. (- review_week g, status g)) (group_by_count tbl)"

section \<open>The review form\<close>

text \<open>
  The select box offers three outcomes and starts with none chosen (\<^verbatim>\<open>index=None\<close>).
\<close>

datatype review_status = Reviewed_Benign | Reviewed_Blocked | Pending_Investigation

fun status_text :: "review_status \<Rightarrow> string" where
  "status_text Reviewed_Benign = ''Reviewed - Benign''"
| "status_text Reviewed_Blocked = ''Reviewed - Blocked''"
| "status_text Pending_Investigation = ''Pending Investigation''"

subsection \<open>The text of the MERGE statement\<close>

text \<open>\<^verbatim>\<open>x.replace("'", "''")\<close>: every single quote becomes two.\<close>

abbreviation quote :: char where
  "quote \<equiv> CHR 0x27"

fun replace_quote :: "string \<Rightarrow> string" where
  "replace_quote [] = []"
| "replace_quote (c # cs) =
     (if c = quote then quote # quote # replace_quote cs else c # replace_quote cs)"

text \<open>\<^verbatim>\<open>current_user = user_df.iloc[0, 0].replace("'", "''")\<close>, from the name the session reports.\<close>

definition current_user :: "string \<Rightarrow> string" where
  "current_user session_user = replace_quote session_user"

text \<open>An interpolation between quotes, \<^verbatim>\<open>'{x}'\<close>.\<close>

definition quoted :: "string \<Rightarrow> string" where
  "quoted x = quote # x @ [quote]"

text \<open>
  The f-string of the form handler, with its line breaks and indentation. The arguments
  are the merchant description of the selected queue row, the chosen status, the notes,
  \<open>current_user\<close> (already escaped where it is computed), and the texts that Python
  prints for the risk score and for the week start date of the selected queue row.
\<close>

definition merge_sql :: "string \<Rightarrow> string \<Rightarrow> string \<Rightarrow> string \<Rightarrow> string \<Rightarrow> string \<Rightarrow> string" where
  "merge_sql merchant_description status_chosen notes_entered user risk_score_text week_start_date_text =
     (''\<newline>''
       @ ''                                    MERGE INTO ANALYTICS_TEAM.TEAM_ANALYTICS_BI.MERCHANT_REVIEW_STATUS t\<newline>''
       @ ''                                    USING (\<newline>''
       @ ''                                        SELECT \<newline>''
       @ ''                                            '')
     @ quoted (replace_quote merchant_description) @ ('' AS MERCHANT_DESCRIPTION,\<newline>''
       @ ''                                            '')
     @ quoted status_chosen @ ('' AS STATUS,\<newline>''
       @ ''                                            '')
     @ quoted (replace_quote notes_entered) @ ('' AS NOTES,\<newline>''
       @ ''                                            '')
     @ quoted user @ ('' AS REVIEWER,\<newline>''
       @ ''                                            '')
     @ risk_score_text @ ('' AS RISK_SCORE,\<newline>''
       @ ''                                            '')
     @ quoted week_start_date_text @ ('' AS WEEK_START_DATE\<newline>''
       @ ''                                    ) s\<newline>''
       @ ''                                    ON t.MERCHANT_DESCRIPTION = s.MERCHANT_DESCRIPTION AND t.WEEK_START_DATE = s.WEEK_START_DATE\<newline>''
       @ ''                                    WHEN MATCHED THEN UPDATE SET t.STATUS = s.STATUS, t.NOTES = s.NOTES, t.REVIEWER = s.REVIEWER, t.REVIEW_DATE = CURRENT_TIMESTAMP()\<newline>''
       @ ''                                    WHEN NOT MATCHED THEN INSERT (MERCHANT_DESCRIPTION, STATUS, NOTES, REVIEWER, RISK_SCORE, WEEK_START_DATE) VALUES (s.MERCHANT_DESCRIPTION, s.STATUS, s.NOTES, s.REVIEWER, s.RISK_SCORE, s.WEEK_START_DATE);\<newline>''
       @ ''                                '')"

subsection \<open>The effect of the MERGE statement\<close>

text \<open>
  The one row of the \<^verbatim>\<open>USING\<close> subquery, with the values its constants denote.
\<close>

record merge_source =
  src_merchant_description :: string
  src_status :: string
  src_notes :: string
  src_reviewer :: string
  src_risk_score :: int
  src_week_start_date :: date

text \<open>
  \<^verbatim>\<open>ON t.MERCHANT_DESCRIPTION = s.MERCHANT_DESCRIPTION AND t.WEEK_START_DATE = s.WEEK_START_DATE\<close>
\<close>

definition merge_on :: "merge_source \<Rightarrow> review_row \<Rightarrow> bool" where
  "merge_on s t =
     (t_merchant_description t = src_merchant_description s
      \<and> t_week_start_date t = src_week_start_date s)"

text \<open>
  \<^verbatim>\<open>WHEN MATCHED THEN UPDATE SET t.STATUS = s.STATUS, t.NOTES = s.NOTES,
       t.REVIEWER = s.REVIEWER, t.REVIEW_DATE = CURRENT_TIMESTAMP()\<close>
\<close>

definition when_matched :: "timestamp \<Rightarrow> merge_source \<Rightarrow> review_row \<Rightarrow> review_row" where
  "when_matched current_timestamp s t =
     t\<lparr>t_status := src_status s,
       t_notes := src_notes s,
       t_reviewer := src_reviewer s,
       t_review_date := Some current_timestamp\<rparr>"

text \<open>
  Modelled from the spec: the declaration of the table
  \<^verbatim>\<open>MERCHANT_REVIEW_STATUS\<close> is not in the repository, and with it the default of the
  column \<^verbatim>\<open>REVIEW_DATE\<close>, which a row takes when an INSERT does not supply the
  column. The spec gives \<^verbatim>\<open>review_date\<close> as the "timestamp of last write" of a row; for
  a row just inserted that is the time of the insert, so the default is the current
  timestamp.
\<close>

definition review_date_default :: "timestamp \<Rightarrow> timestamp option" where
  "review_date_default current_timestamp = Some current_timestamp"

text \<open>
  \<^verbatim>\<open>WHEN NOT MATCHED THEN INSERT (MERCHANT_DESCRIPTION, STATUS, NOTES, REVIEWER,
       RISK_SCORE, WEEK_START_DATE) VALUES (s.MERCHANT_DESCRIPTION, s.STATUS, s.NOTES,
       s.REVIEWER, s.RISK_SCORE, s.WEEK_START_DATE)\<close>

  The column list has six of the seven columns. \<^verbatim>\<open>REVIEW_DATE\<close> is not among them,
  so the new row takes the column's default.
\<close>

definition when_not_matched :: "timestamp \<Rightarrow> merge_source \<Rightarrow> review_row" where
  "when_not_matched current_timestamp s =
     \<lparr>t_merchant_description = src_merchant_description s,
      t_status = src_status s,
      t_notes = src_notes s,
      t_reviewer = src_reviewer s,
      t_risk_score = src_risk_score s,
      t_week_start_date = src_week_start_date s,
      t_review_date = review_date_default current_timestamp\<rparr>"

definition merge_into :: "timestamp \<Rightarrow> merge_source \<Rightarrow> review_row list \<Rightarrow> review_row list" where
  "merge_into current_timestamp s tbl =
     (if filter (merge_on s) tbl = []
      then tbl @ [when_not_matched current_timestamp s]
      else map (\<lambda>t. if merge_on s t then when_matched current_timestamp s t else t) tbl)"

subsection \<open>What becomes of the statement text\<close>

text \<open>
  The handler wraps the text in \<^verbatim>\<open>sqlalchemy.text\<close> and executes it with no
  parameters. \<^verbatim>\<open>text\<close> takes every match of the pattern
  \<^verbatim>\<open>(?<![:\w\x5c]):(\w+)(?!:)\<close> as the name of a bind parameter, wherever it stands
  in the text, inside a string constant as well; executing a statement that has a bind
  parameter without a value for it raises before anything is sent to the engine.
  The pattern matches at a colon that follows neither a colon, a word character nor a
  backslash, when the next character is a word character and the one after that is not
  a colon. Word characters are the letters, the digits and the underscore; characters
  are bytes here, and a byte beyond ASCII is not counted as a word character.
  \<open>bind_parameter\<close> carries the character before the text it scans.
\<close>

abbreviation backslash :: char where
  "backslash \<equiv> CHR 0x5C"

abbreviation colon :: char where
  "colon \<equiv> CHR 0x3A"

definition word_char :: "char \<Rightarrow> bool" where
  "word_char c =
     (c \<in> set ''abcdefghijklmnopqrstuvwxyzABCDEFGHIJKLMNOPQRSTUVWXYZ0123456789_'')"

fun name_follows :: "string \<Rightarrow> bool" where
  "name_follows [] = False"
| "name_follows [d] = word_char d"
| "name_follows (d # e # es) = (word_char d \<and> e \<noteq> colon)"

fun bind_parameter :: "char option \<Rightarrow> string \<Rightarrow> bool" where
  "bind_parameter before [] = False"
| "bind_parameter before (c # cs) =
     (if c = colon
         \<and> (case before of
               None \<Rightarrow> True
             | Some p \<Rightarrow> p \<noteq> colon \<and> p \<noteq> backslash \<and> \<not> word_char p)
         \<and> name_follows cs
      then True
      else bind_parameter (Some c) cs)"

text \<open>
  The engine reads a string constant from a quote up to the quote that closes it:
  inside a constant a doubled quote stands for one quote, a backslash takes the
  character after it with it, and any other quote closes the constant.
  \<open>string_constants\<close> gives the constants of a text in order, each as it is written
  between its quotes, or \<open>None\<close> when the text ends inside a constant. Its first
  argument says whether the scan is inside a constant, its second holds what has been
  read of that constant, last character first.
\<close>

fun string_constants :: "bool \<Rightarrow> string \<Rightarrow> string \<Rightarrow> string list option" where
  "string_constants False acc [] = Some []"
| "string_constants True acc [] = None"
| "string_constants False acc (c # cs) =
     (if c = quote then string_constants True [] cs else string_constants False acc cs)"
| "string_constants True acc [c] = (if c = quote then Some [rev acc] else None)"
| "string_constants True acc (c # d # ds) =
     (if c = backslash then string_constants True (d # c # acc) ds
      else if c = quote
      then (if d = quote then string_constants True (d # c # acc) ds
            else map_option (Cons (rev acc)) (string_constants False [] (d # ds)))
      else string_constants True (c # acc) (d # ds))"

text \<open>The value of a constant written without backslashes: doubled quotes become one.\<close>

fun undouble :: "string \<Rightarrow> string" where
  "undouble (c # d # cs) =
     (if c = quote \<and> d = quote then quote # undouble cs else c # undouble (d # cs))"
| "undouble cs = cs"

text \<open>
  A text without backslashes is the statement of the template exactly when writing the
  template with the constants read from it gives the text back; the values of the five
  constants are then the string columns of the \<^verbatim>\<open>USING\<close> row. The printed risk
  score stands outside the constants and is passed along.
\<close>

definition reads_as_merge :: "string \<Rightarrow> string \<Rightarrow> (string \<times> string \<times> string \<times> string \<times> string) option" where
  "reads_as_merge risk_score_text sql =
     (if backslash \<in> set sql then None
      else case string_constants False [] sql of
             Some [m, st, n, u, w] \<Rightarrow>
               if merge_sql (undouble m) st (undouble n) u risk_score_text w = sql
               then Some (undouble m, undouble st, undouble n, undouble u, undouble w)
               else None
           | _ \<Rightarrow> None)"

text \<open>
  \<^verbatim>\<open>con.execute(merge_sql); con.commit()\<close>. The result is the table after the
  statement, or \<open>None\<close> when the execution raises. A statement with a bind parameter
  raises. A statement that reads as the MERGE of the template runs it, with the risk
  score and the week start date that the printed texts stand for. What the engine does
  with any other text (a text with backslashes, or one whose constants do not fall
  where the template has them) is not in the program: it is the parameter
  \<open>other_statement\<close>, a function of the text and the table that gives \<open>None\<close> when the
  engine raises.
\<close>

definition run_statement ::
  "(string \<Rightarrow> review_row list \<Rightarrow> review_row list option) \<Rightarrow> timestamp \<Rightarrow> string \<Rightarrow> int \<Rightarrow> date
     \<Rightarrow> string \<Rightarrow> review_row list \<Rightarrow> review_row list option" where
  "run_statement other_statement current_timestamp risk_score_text risk_score_value week sql tbl =
     (if bind_parameter None sql then None
      else case reads_as_merge risk_score_text sql of
             Some (m, st, n, u, w) \<Rightarrow>
               Some (merge_into current_timestamp
                       \<lparr>src_merchant_description = m, src_status = st, src_notes = n,
                        src_reviewer = u, src_risk_score = risk_score_value,
                        src_week_start_date = week\<rparr> tbl)
           | None \<Rightarrow> other_statement sql tbl)"

subsection \<open>The submit handler\<close>

text \<open>
  \<^verbatim>\<open>
  if submitted:
      if not status:
          st.error("Please select a status.")
      else:
          with engine.connect() as con:
              merge_sql = text(f"""MERGE ...""")
              con.execute(merge_sql)
              con.commit()
          st.success(f"Status for '{merchant_details['MERCHANT_DESCRIPTION']}' updated to '{status}'!")
  ...
  except Exception as e:
      st.error("An error occurred during app startup:")
      st.exception(e)
  \<close>
  The handler returns the table after it ran and what it shows to the reviewer. A
  submission holds the selected queue row, the texts that Python prints for its risk
  score and its week start date, the chosen status, the notes, the name the session
  reports, and the time of the write.
\<close>

datatype shown = St_error string | St_success string | St_exception

record submission =
  merchant_details :: queue_row
  risk_score_printed :: string
  week_start_date_printed :: string
  status_selected :: "review_status option"
  notes_text :: string
  session_user :: string
  submitted_at :: timestamp

definition statement :: "submission \<Rightarrow> review_status \<Rightarrow> string" where
  "statement f st =
     merge_sql (q_merchant_description (merchant_details f)) (status_text st) (notes_text f)
       (current_user (session_user f)) (risk_score_printed f) (week_start_date_printed f)"

definition submit_review ::
  "(string \<Rightarrow> review_row list \<Rightarrow> review_row list option) \<Rightarrow> submission \<Rightarrow> review_row list
     \<Rightarrow> review_row list \<times> shown" where
  "submit_review other_statement f tbl =
     (case status_selected f of
        None \<Rightarrow> (tbl, St_error ''Please select a status.'')
      | Some st \<Rightarrow>
          (case run_statement other_statement (submitted_at f) (risk_score_printed f)
                  (q_risk_score (merchant_details f)) (q_week_start_date (merchant_details f))
                  (statement f st) tbl of
             None \<Rightarrow> (tbl, St_exception)
           | Some tbl' \<Rightarrow>
               (tbl',
                St_success (''Status for '' @ quoted (q_merchant_description (merchant_details f))
                            @ '' updated to '' @ quoted (status_text st) @ ''!''))))"

text \<open>A run of submissions, one after the other.\<close>

fun submit_all ::
  "(string \<Rightarrow> review_row list \<Rightarrow> review_row list option) \<Rightarrow> submission list \<Rightarrow> review_row list
     \<Rightarrow> review_row list" where
  "submit_all other_statement [] tbl = tbl"
| "submit_all other_statement (f # fs) tbl =
     submit_all other_statement fs (fst (submit_review other_statement f tbl))"

section \<open>Auxiliary notions\<close>

definition review_key :: "review_row \<Rightarrow> string \<times> date" where
  "review_key t = (t_merchant_description t, t_week_start_date t)"

text \<open>The \<^verbatim>\<open>USING\<close> row that a submission spells.\<close>

definition using_row :: "submission \<Rightarrow> review_status \<Rightarrow> merge_source" where
  "using_row f st =
     \<lparr>src_merchant_description = q_merchant_description (merchant_details f),
      src_status = status_text st,
      src_notes = notes_text f,
      src_reviewer = session_user f,
      src_risk_score = q_risk_score (merchant_details f),
      src_week_start_date = q_week_start_date (merchant_details f)\<rparr>"

text \<open>
  A submission is plain when none of the texts it puts into the statement has a
  backslash and the printed risk score and week have no quote.
\<close>

definition plain :: "submission \<Rightarrow> bool" where
  "plain f =
     (backslash \<notin> set (q_merchant_description (merchant_details f) @ notes_text f
                          @ session_user f @ risk_score_printed f @ week_start_date_printed f)
      \<and> quote \<notin> set (risk_score_printed f @ week_start_date_printed f))"

text \<open>The fixed pieces of the statement text, named for the proofs.\<close>

definition before_merchant :: string where
  "before_merchant =
     (''\<newline>''
       @ ''                                    MERGE INTO ANALYTICS_TEAM.TEAM_ANALYTICS_BI.MERCHANT_REVIEW_STATUS t\<newline>''
       @ ''                                    USING (\<newline>''
       @ ''                                        SELECT \<newline>''
       @ ''                                            '')"

definition after_merchant :: string where
  "after_merchant =
     ('' AS MERCHANT_DESCRIPTION,\<newline>''
       @ ''                                            '')"

definition after_status :: string where
  "after_status =
     ('' AS STATUS,\<newline>''
       @ ''                                            '')"

definition after_notes :: string where
  "after_notes =
     ('' AS NOTES,\<newline>''
       @ ''                                            '')"

definition after_reviewer :: string where
  "after_reviewer =
     ('' AS REVIEWER,\<newline>''
       @ ''                                            '')"

definition after_risk_score :: string where
  "after_risk_score =
     ('' AS RISK_SCORE,\<newline>''
       @ ''                                            '')"

definition after_week :: string where
  "after_week =
     ('' AS WEEK_START_DATE\<newline>''
       @ ''                                    ) s\<newline>''
       @ ''                                    ON t.MERCHANT_DESCRIPTION = s.MERCHANT_DESCRIPTION AND t.WEEK_START_DATE = s.WEEK_START_DATE\<newline>''
       @ ''                                    WHEN MATCHED THEN UPDATE SET t.STATUS = s.STATUS, t.NOTES = s.NOTES, t.REVIEWER = s.REVIEWER, t.REVIEW_DATE = CURRENT_TIMESTAMP()\<newline>''
       @ ''                                    WHEN NOT MATCHED THEN INSERT (MERCHANT_DESCRIPTION, STATUS, NOTES, REVIEWER, RISK_SCORE, WEEK_START_DATE) VALUES (s.MERCHANT_DESCRIPTION, s.STATUS, s.NOTES, s.REVIEWER, s.RISK_SCORE, s.WEEK_START_DATE);\<newline>''
       @ ''                                '')"

text \<open>The row that gets row number 1 in a partition, and the latest review of a merchant.\<close>

definition first_of_partition :: "review_row list \<Rightarrow> review_row option" where
  "first_of_partition part =
     (case sort_key (\<lambda>t. review_date_desc (t_review_date t)) part of [] \<Rightarrow> None | x # _ \<Rightarrow> Some x)"

definition latest_of :: "review_row list \<Rightarrow> string \<Rightarrow> latest_review option" where
  "latest_of tbl m = map_option select_latest (first_of_partition (partition_by_merchant tbl m))"

section \<open>Example data\<close>

text \<open>
  One merchant with one risk row for the week of Monday 2024-01-01 (day 19723), a
  second merchant with a lower score, and reviews and submissions for the first.
\<close>

definition acme_risk :: risk_row where
  "acme_risk =
     \<lparr>s_merchant_description = ''Acme Co'', s_risk_score = 91,
      s_reason_codes = ''chargebacks'', s_week_start_date = 19723,
      s_high_risk_merchant = ''true''\<rparr>"

definition globex_risk :: risk_row where
  "globex_risk =
     \<lparr>s_merchant_description = ''Globex'', s_risk_score = 50,
      s_reason_codes = ''velocity'', s_week_start_date = 19723,
      s_high_risk_merchant = ''TRUE''\<rparr>"

definition acme_review :: "string \<Rightarrow> timestamp option \<Rightarrow> review_row" where
  "acme_review st d =
     \<lparr>t_merchant_description = ''Acme Co'', t_status = st, t_notes = ''checked'',
      t_reviewer = ''REVIEWER_1'', t_risk_score = 91, t_week_start_date = 19723,
      t_review_date = d\<rparr>"

definition acme_submission ::
  "review_status option \<Rightarrow> int \<Rightarrow> string \<Rightarrow> string \<Rightarrow> timestamp \<Rightarrow> submission" where
  "acme_submission st score printed txt at =
     \<lparr>merchant_details =
        \<lparr>q_merchant_description = ''Acme Co'', q_risk_score = score,
         q_reason_codes = ''chargebacks'', q_week_start_date = 19723\<rparr>,
      risk_score_printed = printed, week_start_date_printed = ''2024-01-01'',
      status_selected = st, notes_text = txt, session_user = ''REVIEWER_1'',
      submitted_at = at\<rparr>"


section \<open>The examples, evaluated\<close>

lemmas query_defs =
  load_review_queue_def order_by_risk_score_desc_def sql_where_def queue_condition_def
  left_join_def latest_reviews_def partition_by_merchant_def row_number_def select_latest_def
  select_queue_def sql_eq_def sql_le_def sql_is_null_def ilike_def lower_char_def
  timestamp_of_date_def dateadd_day_def

lemma latest_acme_single:
  "latest_reviews [acme_review st d] = [select_latest (acme_review st d)]"
  by (simp add: latest_reviews_def partition_by_merchant_def row_number_def acme_review_def)

lemma queue_two:
  "load_review_queue 19900 [globex_risk, acme_risk] [] =
     [select_queue (acme_risk, None), select_queue (globex_risk, None)]"
  by (simp add: query_defs acme_risk_def globex_risk_def)


lemma acme_flag: "ilike (s_high_risk_merchant acme_risk) ''true''"
  by (simp add: ilike_def lower_char_def acme_risk_def)

lemma monitoring_example:
  "load_monitoring_data
     [acme_review ''Reviewed - Blocked'' (Some 5),
      (acme_review ''Reviewed - Blocked'' (Some 7))\<lparr>t_week_start_date := 19725\<rparr>]
   = [\<lparr>review_week = 19723, status = ''Reviewed - Blocked'', merchant_count = 2\<rparr>]"
  by (simp add: load_monitoring_data_def group_by_count_def group_key_def date_trunc_week_def
      acme_review_def)

section \<open>The latest review and the review queue\<close>

lemma zip_upt_snd_ge: "(x, n) \<in> set (zip xs [i ..< j]) \<Longrightarrow> i \<le> n"
  by (auto dest: set_zip_rightD)

lemma filter_rn_from_2:
  "filter (\<lambda>(t, rn). rn = Suc 0) (zip xs [Suc (Suc 0) ..< j]) = []"
  by (auto simp: filter_empty_conv dest: zip_upt_snd_ge)

lemma filter_rn_1:
  "filter (\<lambda>(t, rn). rn = 1) (zip xs [1 ..< Suc (length xs)]) =
     (case xs of [] \<Rightarrow> [] | x # _ \<Rightarrow> [(x, 1)])"
proof (cases xs)
  case Nil
  then show ?thesis by simp
next
  case (Cons x ys)
  have "[1 ..< Suc (length xs)] = 1 # [Suc (Suc 0) ..< Suc (length xs)]"
    using Cons by (simp add: upt_conv_Cons del: upt_Suc)
  then show ?thesis using Cons by (simp add: filter_rn_from_2 del: upt_Suc)
qed

lemma rn_1_rows:
  "map (\<lambda>(t, rn). select_latest t) (filter (\<lambda>(t, rn). rn = 1) (row_number part)) =
     (case first_of_partition part of None \<Rightarrow> [] | Some t \<Rightarrow> [select_latest t])"
proof -
  let ?s = "sort_key (\<lambda>t. review_date_desc (t_review_date t)) part"
  have "row_number part = zip ?s [1 ..< Suc (length ?s)]"
    by (simp add: row_number_def del: upt_Suc)
  then have "filter (\<lambda>(t, rn). rn = 1) (row_number part) =
      (case ?s of [] \<Rightarrow> [] | x # _ \<Rightarrow> [(x, 1)])"
    by (simp only: filter_rn_1)
  then show ?thesis
    by (simp add: first_of_partition_def split: list.splits)
qed

lemma first_of_partition_None: "first_of_partition part = None \<longleftrightarrow> part = []"
proof -
  let ?s = "sort_key (\<lambda>t. review_date_desc (t_review_date t)) part"
  have "length ?s = length part" by simp
  then have "?s = [] \<longleftrightarrow> part = []" by (metis length_0_conv)
  then show ?thesis by (auto simp: first_of_partition_def split: list.splits)
qed

lemma first_of_partition_Some:
  assumes "first_of_partition part = Some t"
  shows "t \<in> set part"
    and "\<forall>u \<in> set part. review_date_desc (t_review_date t) \<le> review_date_desc (t_review_date u)"
proof -
  let ?k = "\<lambda>t. review_date_desc (t_review_date t)"
  from assms obtain ys where s: "sort_key ?k part = t # ys"
    by (auto simp: first_of_partition_def split: list.splits)
  have "set (sort_key ?k part) = set part" by simp
  with s have st: "set part = insert t (set ys)" by simp
  then show "t \<in> set part" by simp
  have "sorted (map ?k (sort_key ?k part))" by (rule sorted_sort_key)
  with s have "\<forall>u \<in> set ys. ?k t \<le> ?k u" by simp
  with st show "\<forall>u \<in> set part. ?k t \<le> ?k u" by simp
qed

lemma latest_of_None:
  "latest_of tbl m = None \<longleftrightarrow> m \<notin> t_merchant_description ` set tbl"
  by (auto simp: latest_of_def first_of_partition_None partition_by_merchant_def filter_empty_conv)

lemma latest_of_SomeD:
  assumes "latest_of tbl m = Some l"
  obtains t where "t \<in> set tbl" "t_merchant_description t = m" "l = select_latest t"
    "\<forall>u \<in> set tbl. t_merchant_description u = m \<longrightarrow>
       review_date_desc (t_review_date t) \<le> review_date_desc (t_review_date u)"
proof -
  from assms obtain t where f: "first_of_partition (partition_by_merchant tbl m) = Some t"
    and l: "l = select_latest t"
    by (auto simp: latest_of_def)
  from first_of_partition_Some[OF f] have "t \<in> set tbl" "t_merchant_description t = m"
    "\<forall>u \<in> set tbl. t_merchant_description u = m \<longrightarrow>
       review_date_desc (t_review_date t) \<le> review_date_desc (t_review_date u)"
    by (auto simp: partition_by_merchant_def)
  with l that show thesis by blast
qed

lemma latest_of_merchant: "latest_of tbl m = Some l \<Longrightarrow> r_merchant_description l = m"
  by (erule latest_of_SomeD) (simp add: select_latest_def)

lemma latest_reviews_eq:
  "latest_reviews tbl =
     concat (map (\<lambda>m. case latest_of tbl m of None \<Rightarrow> [] | Some l \<Rightarrow> [l])
                 (remdups (map t_merchant_description tbl)))"
proof -
  have "\<And>m. map (\<lambda>(t, rn). select_latest t)
              (filter (\<lambda>(t, rn). rn = 1) (row_number (partition_by_merchant tbl m))) =
            (case latest_of tbl m of None \<Rightarrow> [] | Some l \<Rightarrow> [l])"
    unfolding rn_1_rows by (simp add: latest_of_def split: option.splits)
  then show ?thesis unfolding latest_reviews_def by (simp only:)
qed

lemma concat_singletons:
  "\<forall>x \<in> set xs. g x = [f x] \<Longrightarrow> concat (map g xs) = map f xs"
  by (induction xs) auto

lemma filter_concat_keyed:
  assumes "distinct ms" and "\<forall>x \<in> set ms. \<forall>y \<in> set (g x). key y = x"
  shows "filter (\<lambda>y. m = key y) (concat (map g ms)) = (if m \<in> set ms then g m else [])"
  using assms
proof (induction ms)
  case Nil
  then show ?case by simp
next
  case (Cons a ms)
  have a: "filter (\<lambda>y. m = key y) (g a) = (if m = a then g a else [])"
    using Cons.prems(2) by (auto simp: filter_empty_conv filter_id_conv)
  from Cons have ih: "filter (\<lambda>y. m = key y) (concat (map g ms)) = (if m \<in> set ms then g m else [])"
    by simp
  from Cons.prems(1) have "a \<notin> set ms" by simp
  with a ih show ?case by auto
qed

lemma filter_latest_reviews:
  "filter (\<lambda>r. m = r_merchant_description r) (latest_reviews tbl) =
     (case latest_of tbl m of None \<Rightarrow> [] | Some l \<Rightarrow> [l])"
proof -
  let ?g = "\<lambda>m. case latest_of tbl m of None \<Rightarrow> [] | Some l \<Rightarrow> [l]"
  let ?ms = "remdups (map t_merchant_description tbl)"
  have k: "\<forall>x \<in> set ?ms. \<forall>y \<in> set (?g x). r_merchant_description y = x"
    by (auto split: option.splits dest: latest_of_merchant latest_of_merchant[OF sym])
  have "filter (\<lambda>r. m = r_merchant_description r) (concat (map ?g ?ms)) =
          (if m \<in> set ?ms then ?g m else [])"
    by (rule filter_concat_keyed) (use k in auto)
  moreover have "m \<notin> set ?ms \<Longrightarrow> ?g m = []"
    using latest_of_None[of tbl m] by (auto split: option.splits)
  ultimately show ?thesis by (auto simp: latest_reviews_eq)
qed

lemma left_join_latest:
  "left_join scores (latest_reviews tbl) =
     map (\<lambda>s. (s, latest_of tbl (s_merchant_description s))) scores"
  unfolding left_join_def filter_latest_reviews
  by (rule concat_singletons) (auto split: option.splits)


lemma set_latest_reviews:
  "l \<in> set (latest_reviews tbl) \<longleftrightarrow> (\<exists>m. latest_of tbl m = Some l)"
proof
  assume "l \<in> set (latest_reviews tbl)"
  then show "\<exists>m. latest_of tbl m = Some l"
    by (auto simp: latest_reviews_eq split: option.splits)
next
  assume "\<exists>m. latest_of tbl m = Some l"
  then obtain m where m: "latest_of tbl m = Some l" ..
  then have "m \<in> t_merchant_description ` set tbl"
    using latest_of_None[of tbl m] by auto
  with m show "l \<in> set (latest_reviews tbl)"
    by (force simp: latest_reviews_eq)
qed

lemma latest_of_iff:
  "latest_of tbl m = Some l \<longleftrightarrow> l \<in> set (latest_reviews tbl) \<and> r_merchant_description l = m"
proof
  assume "latest_of tbl m = Some l"
  then show "l \<in> set (latest_reviews tbl) \<and> r_merchant_description l = m"
    by (auto simp: set_latest_reviews dest: latest_of_merchant)
next
  assume a: "l \<in> set (latest_reviews tbl) \<and> r_merchant_description l = m"
  then obtain m' where "latest_of tbl m' = Some l" by (auto simp: set_latest_reviews)
  with a show "latest_of tbl m = Some l" by (auto dest: latest_of_merchant)
qed

lemma queue_condition_True:
  "queue_condition today (s, r) = Some True \<longleftrightarrow>
     ilike (s_high_risk_merchant s) ''true'' \<and>
     (r = None \<or>
      (\<exists>l. r = Some l \<and>
         (r_status l = ''Reviewed - Benign'' \<and>
            (\<exists>d. r_review_date l = Some d \<and> d \<le> timestamp_of_date (dateadd_day (- 90) today))
          \<or> r_status l = ''Pending Investigation'')))"
proof (cases r)
  case None
  then show ?thesis
    by (cases "ilike (s_high_risk_merchant s) ''true''")
       (simp_all add: queue_condition_def sql_is_null_def sql_eq_def sql_le_def)
next
  case (Some l)
  show ?thesis
  proof (cases "r_review_date l")
    case None
    with Some show ?thesis
      by (cases "ilike (s_high_risk_merchant s) ''true''";
          cases "r_status l = ''Reviewed - Benign''";
          cases "r_status l = ''Pending Investigation''")
         (simp_all add: queue_condition_def sql_is_null_def sql_eq_def sql_le_def)
  next
    case (Some d)
    with \<open>r = Some l\<close> show ?thesis
      by (cases "ilike (s_high_risk_merchant s) ''true''";
          cases "r_status l = ''Reviewed - Benign''";
          cases "r_status l = ''Pending Investigation''";
          cases "d \<le> timestamp_of_date (dateadd_day (- 90) today)")
         (simp_all add: queue_condition_def sql_is_null_def sql_eq_def sql_le_def)
  qed
qed

lemma select_queue_ignores_review: "select_queue (s, r) = select_queue (s, None)"
  by (simp add: select_queue_def)

lemma load_review_queue_set:
  "q \<in> set (load_review_queue today scores reviews) \<longleftrightarrow>
     (\<exists>s \<in> set scores. q = select_queue (s, None) \<and>
        queue_condition today (s, latest_of reviews (s_merchant_description s)) = Some True)"
proof -
  let ?j = "map (\<lambda>s. (s, latest_of reviews (s_merchant_description s))) scores"
  have "set (load_review_queue today scores reviews) =
      select_queue ` {p \<in> set ?j. queue_condition today p = Some True}"
    by (simp add: load_review_queue_def order_by_risk_score_desc_def sql_where_def left_join_latest)
  then have "q \<in> set (load_review_queue today scores reviews) \<longleftrightarrow>
      (\<exists>p \<in> set ?j. queue_condition today p = Some True \<and> q = select_queue p)"
    by auto
  also have "\<dots> \<longleftrightarrow> (\<exists>s \<in> set scores. q = select_queue (s, None) \<and>
        queue_condition today (s, latest_of reviews (s_merchant_description s)) = Some True)"
    by (auto simp: select_queue_def)
  finally show ?thesis .
qed

lemma latest_of_None_iff:
  "latest_of tbl m = None \<longleftrightarrow> (\<forall>t \<in> set tbl. t_merchant_description t \<noteq> m)"
  by (auto simp: latest_of_None)

lemma days_before:
  "d \<le> timestamp_of_date (dateadd_day (- 90) today) \<longleftrightarrow> d + 90 * 86400 \<le> timestamp_of_date today"
  by (simp add: timestamp_of_date_def dateadd_day_def algebra_simps)

lemma queue_member_iff:
  "q \<in> set (load_review_queue today scores reviews) \<longleftrightarrow>
    (\<exists>s \<in> set scores. q = select_queue (s, None) \<and> ilike (s_high_risk_merchant s) ''true'' \<and>
       ((\<forall>t \<in> set reviews. t_merchant_description t \<noteq> s_merchant_description s)
        \<or> (\<exists>l \<in> set (latest_reviews reviews).
              r_merchant_description l = s_merchant_description s \<and>
              (r_status l = ''Reviewed - Benign'' \<and>
                 (\<exists>d. r_review_date l = Some d \<and> d + 90 * 86400 \<le> timestamp_of_date today)
               \<or> r_status l = ''Pending Investigation''))))"
  unfolding load_review_queue_set queue_condition_True latest_of_None_iff latest_of_iff days_before
  by (rule bex_cong[OF refl]) blast

lemma select_queue_merchant:
  "select_queue (s, r) = select_queue (s', r') \<Longrightarrow> s_merchant_description s = s_merchant_description s'"
  by (auto simp: select_queue_def)

text \<open>
  Claim C1. A row of the queue is the projection of a risk row whose flag reads true and
  whose merchant either has no review row at all, or has a latest review that is
  \<^verbatim>\<open>Reviewed - Benign\<close> with a review date at least 90 days before the current date, or
  has a latest review that is \<^verbatim>\<open>Pending Investigation\<close>; and nothing else is in the
  queue. In particular a merchant whose latest review is \<^verbatim>\<open>Reviewed - Blocked\<close> is not
  in the queue, whatever the score and the date. The latest review is the row of
  \<open>latest_reviews\<close>; a NULL review date satisfies no date condition.
\<close>

theorem review_queue_membership:
  "(q \<in> set (load_review_queue current_date scores reviews) \<longleftrightarrow>
    (\<exists>s \<in> set scores. q = select_queue (s, None) \<and> ilike (s_high_risk_merchant s) ''true'' \<and>
       ((\<forall>t \<in> set reviews. t_merchant_description t \<noteq> s_merchant_description s)
        \<or> (\<exists>l \<in> set (latest_reviews reviews).
              r_merchant_description l = s_merchant_description s \<and>
              (r_status l = ''Reviewed - Benign'' \<and>
                 (\<exists>d. r_review_date l = Some d \<and> d + 90 * 86400 \<le> timestamp_of_date current_date)
               \<or> r_status l = ''Pending Investigation'')))))
   \<and> (\<forall>s \<in> set scores. \<forall>l \<in> set (latest_reviews reviews).
         r_merchant_description l = s_merchant_description s \<and> r_status l = ''Reviewed - Blocked''
         \<longrightarrow> select_queue (s, None) \<notin> set (load_review_queue current_date scores reviews))"
proof (intro conjI ballI impI)
  show "q \<in> set (load_review_queue current_date scores reviews) \<longleftrightarrow>
    (\<exists>s \<in> set scores. q = select_queue (s, None) \<and> ilike (s_high_risk_merchant s) ''true'' \<and>
       ((\<forall>t \<in> set reviews. t_merchant_description t \<noteq> s_merchant_description s)
        \<or> (\<exists>l \<in> set (latest_reviews reviews).
              r_merchant_description l = s_merchant_description s \<and>
              (r_status l = ''Reviewed - Benign'' \<and>
                 (\<exists>d. r_review_date l = Some d \<and> d + 90 * 86400 \<le> timestamp_of_date current_date)
               \<or> r_status l = ''Pending Investigation''))))"
    by (rule queue_member_iff)
next
  fix s l
  assume s: "s \<in> set scores" and l: "l \<in> set (latest_reviews reviews)"
    and b: "r_merchant_description l = s_merchant_description s \<and> r_status l = ''Reviewed - Blocked''"
  show "select_queue (s, None) \<notin> set (load_review_queue current_date scores reviews)"
  proof
    assume "select_queue (s, None) \<in> set (load_review_queue current_date scores reviews)"
    then obtain s' where s': "select_queue (s, None) = select_queue (s', None)"
      and c: "queue_condition current_date (s', latest_of reviews (s_merchant_description s')) = Some True"
      by (auto simp: load_review_queue_set)
    from s' have "s_merchant_description s' = s_merchant_description s"
      by (auto dest: select_queue_merchant)
    with l b have "latest_of reviews (s_merchant_description s') = Some l"
      by (simp add: latest_of_iff)
    with c b show False by (simp add: queue_condition_True)
  qed
qed

text \<open>A blocked merchant is out of the queue and a merchant never reviewed is in it.\<close>

theorem review_queue_membership_witness:
  "acme_risk \<in> set [acme_risk]
   \<and> select_latest (acme_review ''Reviewed - Blocked'' (Some 1719000000))
        \<in> set (latest_reviews [acme_review ''Reviewed - Blocked'' (Some 1719000000)])
   \<and> r_merchant_description (select_latest (acme_review ''Reviewed - Blocked'' (Some 1719000000)))
        = s_merchant_description acme_risk
   \<and> r_status (select_latest (acme_review ''Reviewed - Blocked'' (Some 1719000000)))
        = ''Reviewed - Blocked''
   \<and> select_queue (acme_risk, None)
        \<notin> set (load_review_queue 19900 [acme_risk]
                  [acme_review ''Reviewed - Blocked'' (Some 1719000000)])
   \<and> select_queue (acme_risk, None) \<in> set (load_review_queue 19900 [acme_risk] [])"
proof -
  let ?b = "acme_review ''Reviewed - Blocked'' (Some 1719000000)"
  have h: "acme_risk \<in> set [acme_risk]" "select_latest ?b \<in> set (latest_reviews [?b])"
    "r_merchant_description (select_latest ?b) = s_merchant_description acme_risk
       \<and> r_status (select_latest ?b) = ''Reviewed - Blocked''"
    by (simp_all add: latest_acme_single) (simp_all add: select_latest_def acme_review_def acme_risk_def)
  have "\<forall>s \<in> set [acme_risk]. \<forall>l \<in> set (latest_reviews [?b]).
         r_merchant_description l = s_merchant_description s \<and> r_status l = ''Reviewed - Blocked''
         \<longrightarrow> select_queue (s, None) \<notin> set (load_review_queue 19900 [acme_risk] [?b])"
    using review_queue_membership[of "select_queue (acme_risk, None)" 19900 "[acme_risk]" "[?b]"]
    by (rule conjunct2)
  with h have out: "select_queue (acme_risk, None) \<notin> set (load_review_queue 19900 [acme_risk] [?b])"
    by blast
  have "select_queue (acme_risk, None) \<in> set (load_review_queue 19900 [acme_risk] [])"
    using review_queue_membership[of "select_queue (acme_risk, None)" 19900 "[acme_risk]" "[]"]
    by (simp add: acme_flag)
  with h out show ?thesis by simp
qed

text \<open>
  Claim C3. For a high-risk merchant whose latest review is \<^verbatim>\<open>Reviewed - Benign\<close> with
  review date \<open>d\<close>: if \<open>d\<close> is 90 days before the current date or earlier, the merchant
  is in the queue; if \<open>d\<close> is fewer than 90 days before it, the merchant is not; and the
  boundary is inclusive, \<open>d\<close> equal to the current date minus 90 days is in the queue.
  The current date counts as its midnight.
\<close>

theorem benign_clearance_expiry:
  assumes "s \<in> set scores" and "ilike (s_high_risk_merchant s) ''true''"
    and "l \<in> set (latest_reviews reviews)"
    and "r_merchant_description l = s_merchant_description s"
    and "r_status l = ''Reviewed - Benign''"
    and "r_review_date l = Some d"
  shows "(d + 90 * 86400 \<le> timestamp_of_date current_date \<longrightarrow>
            select_queue (s, None) \<in> set (load_review_queue current_date scores reviews))
       \<and> (timestamp_of_date current_date < d + 90 * 86400 \<longrightarrow>
            select_queue (s, None) \<notin> set (load_review_queue current_date scores reviews))
       \<and> (d = timestamp_of_date (current_date - 90) \<longrightarrow>
            select_queue (s, None) \<in> set (load_review_queue current_date scores reviews))"
proof -
  have lat: "\<And>s'. s_merchant_description s' = s_merchant_description s \<Longrightarrow>
      latest_of reviews (s_merchant_description s') = Some l"
    using assms(3,4) by (simp add: latest_of_iff)
  have inq: "d + 90 * 86400 \<le> timestamp_of_date current_date \<Longrightarrow>
      select_queue (s, None) \<in> set (load_review_queue current_date scores reviews)"
    unfolding load_review_queue_set
    using assms lat[of s] by (intro bexI[of _ s]) (simp_all add: queue_condition_True days_before)
  have notq: "timestamp_of_date current_date < d + 90 * 86400 \<Longrightarrow>
      select_queue (s, None) \<notin> set (load_review_queue current_date scores reviews)"
  proof
    assume late: "timestamp_of_date current_date < d + 90 * 86400"
    assume "select_queue (s, None) \<in> set (load_review_queue current_date scores reviews)"
    then obtain s' where s': "select_queue (s, None) = select_queue (s', None)"
      and c: "queue_condition current_date (s', latest_of reviews (s_merchant_description s')) = Some True"
      by (auto simp: load_review_queue_set)
    from s' have "s_merchant_description s' = s_merchant_description s"
      by (auto dest: select_queue_merchant)
    then have "latest_of reviews (s_merchant_description s') = Some l" by (rule lat)
    with c assms(5,6) late show False by (simp add: queue_condition_True days_before)
  qed
  have "d = timestamp_of_date (current_date - 90) \<Longrightarrow> d + 90 * 86400 \<le> timestamp_of_date current_date"
    by (simp add: timestamp_of_date_def)
  with inq notq show ?thesis by blast
qed

text \<open>A benign review of midnight 2024-03-28: in the queue on day 19900, ninety days later, and not the day before.\<close>

theorem benign_clearance_expiry_witness:
  "acme_risk \<in> set [acme_risk]
   \<and> ilike (s_high_risk_merchant acme_risk) ''true''
   \<and> select_latest (acme_review ''Reviewed - Benign'' (Some 1711584000))
        \<in> set (latest_reviews [acme_review ''Reviewed - Benign'' (Some 1711584000)])
   \<and> r_merchant_description (select_latest (acme_review ''Reviewed - Benign'' (Some 1711584000)))
        = s_merchant_description acme_risk
   \<and> r_status (select_latest (acme_review ''Reviewed - Benign'' (Some 1711584000)))
        = ''Reviewed - Benign''
   \<and> r_review_date (select_latest (acme_review ''Reviewed - Benign'' (Some 1711584000)))
        = Some 1711584000
   \<and> 1711584000 = timestamp_of_date (19900 - 90)
   \<and> select_queue (acme_risk, None)
        \<in> set (load_review_queue 19900 [acme_risk]
                  [acme_review ''Reviewed - Benign'' (Some 1711584000)])
   \<and> timestamp_of_date 19899 < 1711584000 + 90 * 86400
   \<and> select_queue (acme_risk, None)
        \<notin> set (load_review_queue 19899 [acme_risk]
                  [acme_review ''Reviewed - Benign'' (Some 1711584000)])"
proof -
  let ?b = "acme_review ''Reviewed - Benign'' (Some 1711584000)"
  have h: "acme_risk \<in> set [acme_risk]" "ilike (s_high_risk_merchant acme_risk) ''true''"
    "select_latest ?b \<in> set (latest_reviews [?b])"
    "r_merchant_description (select_latest ?b) = s_merchant_description acme_risk"
    "r_status (select_latest ?b) = ''Reviewed - Benign''"
    "r_review_date (select_latest ?b) = Some 1711584000"
    by (simp_all add: latest_acme_single acme_flag)
       (simp_all add: select_latest_def acme_review_def acme_risk_def)
  have d: "1711584000 = timestamp_of_date (19900 - 90)"
    "timestamp_of_date 19899 < 1711584000 + 90 * 86400"
    by (simp_all add: timestamp_of_date_def)
  from benign_clearance_expiry[OF h, of 19900] d
  have a: "select_queue (acme_risk, None) \<in> set (load_review_queue 19900 [acme_risk] [?b])"
    by blast
  from benign_clearance_expiry[OF h, of 19899] d
  have b: "select_queue (acme_risk, None) \<notin> set (load_review_queue 19899 [acme_risk] [?b])"
    by blast
  from h d a b show ?thesis by blast
qed







text \<open>
  Claim C8. The queue is sorted by risk score descending: every row's score is at least
  the score of every later row, in particular of the next one.
\<close>

theorem review_queue_sorted:
  "sorted_wrt (\<lambda>a b. q_risk_score b \<le> q_risk_score a) (load_review_queue current_date scores reviews)
   \<and> (\<forall>i. Suc i < length (load_review_queue current_date scores reviews) \<longrightarrow>
         q_risk_score (load_review_queue current_date scores reviews ! Suc i)
           \<le> q_risk_score (load_review_queue current_date scores reviews ! i))"
proof -
  let ?rows = "sql_where (queue_condition current_date) (left_join scores (latest_reviews reviews))"
  let ?k = "\<lambda>(s, r). - s_risk_score s"
  have "sorted (map ?k (sort_key ?k ?rows))" by (rule sorted_sort_key)
  then have "sorted_wrt (\<lambda>a b. ?k a \<le> ?k b) (sort_key ?k ?rows)"
    by (simp add: sorted_map)
  then have "sorted_wrt (\<lambda>a b. q_risk_score (select_queue b) \<le> q_risk_score (select_queue a)) (sort_key ?k ?rows)"
    by (rule sorted_wrt_mono_rel[rotated]) (auto simp: select_queue_def)
  then have s: "sorted_wrt (\<lambda>a b. q_risk_score b \<le> q_risk_score a) (load_review_queue current_date scores reviews)"
    by (simp add: load_review_queue_def order_by_risk_score_desc_def sorted_wrt_map)
  then show ?thesis by (simp add: sorted_wrt_iff_nth_less)
qed

text \<open>Two merchants never reviewed come out with the higher score first.\<close>

theorem review_queue_sorted_witness:
  "Suc 0 < length (load_review_queue 19900 [globex_risk, acme_risk] [])
   \<and> q_risk_score (load_review_queue 19900 [globex_risk, acme_risk] [] ! Suc 0)
       \<le> q_risk_score (load_review_queue 19900 [globex_risk, acme_risk] [] ! 0)
   \<and> load_review_queue 19900 [globex_risk, acme_risk] [] =
       [select_queue (acme_risk, None), select_queue (globex_risk, None)]"
proof -
  have n: "Suc 0 < length (load_review_queue 19900 [globex_risk, acme_risk] [])"
    by (simp add: queue_two)
  with review_queue_sorted[of 19900 "[globex_risk, acme_risk]" "[]"]
  have "q_risk_score (load_review_queue 19900 [globex_risk, acme_risk] [] ! Suc 0)
       \<le> q_risk_score (load_review_queue 19900 [globex_risk, acme_risk] [] ! 0)"
    by blast
  with n queue_two show ?thesis by blast
qed

section \<open>The weekly analytics\<close>

lemma group_by_count_keys:
  "map (\<lambda>g. (review_week g, status g)) (group_by_count tbl) = remdups (map group_key tbl)"
  by (simp add: group_by_count_def comp_def case_prod_beta)

lemma group_by_count_member:
  "g \<in> set (group_by_count tbl) \<longleftrightarrow>
     (\<exists>t \<in> set tbl. g = \<lparr>review_week = date_trunc_week (t_week_start_date t), status = t_status t,
        merchant_count = length (filter (\<lambda>u. group_key u = group_key t) tbl)\<rparr>)"
  by (auto simp: group_by_count_def group_key_def image_iff)

lemma week_key_le:
  "(- review_week a, status a) \<le> (- review_week b, status b) \<longleftrightarrow>
     review_week b < review_week a \<or> (review_week a = review_week b \<and> status a \<le> status b)"
  by (auto simp: less_eq_prod_def)

text \<open>
  Claim C7. Every row of the analytics result counts the review rows whose week start
  date truncates to its week and whose status is its status, and that count is
  positive; every review row is counted in some result row; no (week, status) pair
  occurs twice; the result is ordered by week descending and then by status ascending;
  and truncation gives the Monday of the week that contains the date.
\<close>

theorem weekly_analytics:
  "(\<forall>g \<in> set (load_monitoring_data tbl).
       merchant_count g =
         length (filter (\<lambda>t. date_trunc_week (t_week_start_date t) = review_week g
                              \<and> t_status t = status g) tbl)
       \<and> 0 < merchant_count g)
   \<and> (\<forall>t \<in> set tbl. \<exists>g \<in> set (load_monitoring_data tbl).
         review_week g = date_trunc_week (t_week_start_date t) \<and> status g = t_status t)
   \<and> distinct (map (\<lambda>g. (review_week g, status g)) (load_monitoring_data tbl))
   \<and> sorted_wrt (\<lambda>a b. review_week b < review_week a
                        \<or> (review_week a = review_week b \<and> status a \<le> status b))
        (load_monitoring_data tbl)
   \<and> date_trunc_week d \<le> d \<and> d < date_trunc_week d + 7 \<and> (date_trunc_week d + 3) mod 7 = 0"
proof (intro conjI ballI)
  fix g assume "g \<in> set (load_monitoring_data tbl)"
  then have "g \<in> set (group_by_count tbl)" by (simp add: load_monitoring_data_def)
  then obtain t where t: "t \<in> set tbl"
    and g: "g = \<lparr>review_week = date_trunc_week (t_week_start_date t), status = t_status t,
        merchant_count = length (filter (\<lambda>u. group_key u = group_key t) tbl)\<rparr>"
    by (auto simp: group_by_count_member)
  from g show "merchant_count g =
         length (filter (\<lambda>t. date_trunc_week (t_week_start_date t) = review_week g
                              \<and> t_status t = status g) tbl)"
    by (simp add: group_key_def)
  from t have "t \<in> set (filter (\<lambda>u. group_key u = group_key t) tbl)" by simp
  then have "filter (\<lambda>u. group_key u = group_key t) tbl \<noteq> []" by (metis empty_iff empty_set)
  with g show "0 < merchant_count g" by simp
next
  fix t assume "t \<in> set tbl"
  then have "\<lparr>review_week = date_trunc_week (t_week_start_date t), status = t_status t,
        merchant_count = length (filter (\<lambda>u. group_key u = group_key t) tbl)\<rparr>
      \<in> set (load_monitoring_data tbl)"
    by (auto simp: load_monitoring_data_def group_by_count_member)
  then show "\<exists>g \<in> set (load_monitoring_data tbl).
         review_week g = date_trunc_week (t_week_start_date t) \<and> status g = t_status t"
    by (rule rev_bexI) simp
next
  have "distinct (map (\<lambda>g. (review_week g, status g)) (group_by_count tbl))"
    by (simp add: group_by_count_keys)
  then have "inj_on (\<lambda>g. (review_week g, status g)) (set (group_by_count tbl))"
    and "distinct (group_by_count tbl)"
    by (simp_all add: distinct_map)
  then show "distinct (map (\<lambda>g. (review_week g, status g)) (load_monitoring_data tbl))"
    by (simp add: load_monitoring_data_def distinct_map)
next
  let ?k = "\<lambda>g. (- review_week g, status g)"
  have "sorted (map ?k (sort_key ?k (group_by_count tbl)))" by (rule sorted_sort_key)
  then have "sorted_wrt (\<lambda>a b. ?k a \<le> ?k b) (load_monitoring_data tbl)"
    by (simp add: load_monitoring_data_def sorted_map)
  then show "sorted_wrt (\<lambda>a b. review_week b < review_week a
                        \<or> (review_week a = review_week b \<and> status a \<le> status b))
        (load_monitoring_data tbl)"
    by (simp only: week_key_le)
next
  show "date_trunc_week d \<le> d" by (simp add: date_trunc_week_def)
  show "d < date_trunc_week d + 7" 
    using pos_mod_bound[of 7 "d + 3"] by (simp add: date_trunc_week_def)
  show "(date_trunc_week d + 3) mod 7 = 0"
    unfolding date_trunc_week_def by presburger
qed

text \<open>Two blocked reviews of the same week, one dated the Wednesday, are counted together.\<close>

theorem weekly_analytics_witness:
  "\<lparr>review_week = 19723, status = ''Reviewed - Blocked'', merchant_count = 2\<rparr>
     \<in> set (load_monitoring_data
              [acme_review ''Reviewed - Blocked'' (Some 5),
               (acme_review ''Reviewed - Blocked'' (Some 7))\<lparr>t_week_start_date := 19725\<rparr>])
   \<and> merchant_count \<lparr>review_week = 19723, status = ''Reviewed - Blocked'', merchant_count = 2\<rparr>
       = length (filter (\<lambda>t. date_trunc_week (t_week_start_date t) = 19723
                             \<and> t_status t = ''Reviewed - Blocked'')
              [acme_review ''Reviewed - Blocked'' (Some 5),
               (acme_review ''Reviewed - Blocked'' (Some 7))\<lparr>t_week_start_date := 19725\<rparr>])
   \<and> 0 < merchant_count \<lparr>review_week = 19723, status = ''Reviewed - Blocked'', merchant_count = 2\<rparr>"
proof -
  let ?tbl = "[acme_review ''Reviewed - Blocked'' (Some 5),
               (acme_review ''Reviewed - Blocked'' (Some 7))\<lparr>t_week_start_date := 19725\<rparr>]"
  let ?g = "\<lparr>review_week = 19723, status = ''Reviewed - Blocked'', merchant_count = 2\<rparr>"
  have g: "?g \<in> set (load_monitoring_data ?tbl)" by (simp add: monitoring_example)
  have "\<forall>g \<in> set (load_monitoring_data ?tbl).
       merchant_count g =
         length (filter (\<lambda>t. date_trunc_week (t_week_start_date t) = review_week g
                              \<and> t_status t = status g) ?tbl)
       \<and> 0 < merchant_count g"
    using weekly_analytics[of ?tbl 0] by (rule conjunct1)
  from this g have "merchant_count ?g =
         length (filter (\<lambda>t. date_trunc_week (t_week_start_date t) = review_week ?g
                              \<and> t_status t = status ?g) ?tbl)
       \<and> 0 < merchant_count ?g"
    by (rule bspec)
  with g show ?thesis by simp
qed

section \<open>The statement text\<close>

lemmas piece_defs =
  before_merchant_def after_merchant_def after_status_def after_notes_def after_reviewer_def
  after_risk_score_def after_week_def

lemma merge_sql_pieces:
  "merge_sql m st n u rs w =
     before_merchant @ quoted (replace_quote m) @ after_merchant @ quoted st @ after_status
       @ quoted (replace_quote n) @ after_notes @ quoted u @ after_reviewer @ rs
       @ after_risk_score @ quoted w @ after_week"
  unfolding merge_sql_def piece_defs by (rule refl)

lemma pieces_quote_free:
  "quote \<notin> set before_merchant" "quote \<notin> set after_merchant" "quote \<notin> set after_status"
  "quote \<notin> set after_notes" "quote \<notin> set after_reviewer" "quote \<notin> set after_risk_score"
  "quote \<notin> set after_week"
  by (simp_all add: piece_defs)

lemma pieces_backslash_free:
  "backslash \<notin> set before_merchant" "backslash \<notin> set after_merchant"
  "backslash \<notin> set after_status" "backslash \<notin> set after_notes"
  "backslash \<notin> set after_reviewer" "backslash \<notin> set after_risk_score"
  "backslash \<notin> set after_week"
  by (simp_all add: piece_defs)

lemma pieces_colon_free:
  "colon \<notin> set before_merchant" "colon \<notin> set after_merchant" "colon \<notin> set after_status"
  "colon \<notin> set after_notes" "colon \<notin> set after_reviewer" "colon \<notin> set after_risk_score"
  "colon \<notin> set after_week"
  by (simp_all add: piece_defs)

lemma pieces_not_empty:
  "after_merchant \<noteq> []" "after_status \<noteq> []" "after_notes \<noteq> []" "after_reviewer \<noteq> []"
  "after_week \<noteq> []"
  by (simp_all add: piece_defs)

lemma undouble_replace_quote: "undouble (replace_quote x) = x"
proof (induction x)
  case Nil
  then show ?case by simp
next
  case (Cons c x)
  show ?case
  proof (cases "c = quote")
    case True
    with Cons show ?thesis by simp
  next
    case False
    show ?thesis
    proof (cases "replace_quote x")
      case Nil
      with Cons False show ?thesis by simp
    next
      case (Cons e es)
      with Cons.IH False show ?thesis by simp
    qed
  qed
qed

lemma replace_quote_id: "quote \<notin> set x \<Longrightarrow> replace_quote x = x"
  by (induction x) auto

lemma undouble_id: "quote \<notin> set x \<Longrightarrow> undouble x = x"
  using undouble_replace_quote[of x] by (simp add: replace_quote_id)

lemma set_replace_quote: "set (replace_quote x) = set x"
  by (induction x) auto

lemma replace_quote_concat:
  "replace_quote x = concat (map (\<lambda>c. if c = quote then [quote, quote] else [c]) x)"
  by (induction x) simp_all

lemma quote_free_status: "quote \<notin> set (status_text st)"
  by (cases st) simp_all

lemma backslash_free_status: "backslash \<notin> set (status_text st)"
  by (cases st) simp_all

lemma colon_free_status: "colon \<notin> set (status_text st)"
  by (cases st) simp_all

lemma outside_skip:
  "quote \<notin> set pre \<Longrightarrow>
   string_constants False acc (pre @ quote # rest) = string_constants True [] rest"
  by (induction pre) auto

lemma outside_end: "quote \<notin> set pre \<Longrightarrow> string_constants False acc pre = Some []"
  by (induction pre) auto

lemma inside_read:
  "d \<noteq> quote \<Longrightarrow> backslash \<notin> set x \<Longrightarrow>
   string_constants True acc (replace_quote x @ quote # d # rest) =
     map_option (Cons (rev acc @ replace_quote x)) (string_constants False [] (d # rest))"
proof (induction x arbitrary: acc)
  case Nil
  then show ?case by simp
next
  case (Cons c x)
  from Cons.prems have nb: "c \<noteq> backslash" "backslash \<notin> set x" by auto
  show ?case
  proof (cases "c = quote")
    case True
    with Cons.IH[OF Cons.prems(1) nb(2)] show ?thesis by simp
  next
    case False
    obtain e es where e: "replace_quote x @ quote # d # rest = e # es"
      by (cases "replace_quote x @ quote # d # rest") simp_all
    have "string_constants True acc (c # e # es) = string_constants True (c # acc) (e # es)"
      using False nb(1) by simp
    with e Cons.IH[OF Cons.prems(1) nb(2), of "c # acc"] False show ?thesis by simp
  qed
qed

lemma inside_end:
  "quote \<notin> set x \<Longrightarrow> backslash \<notin> set x \<Longrightarrow> string_constants True acc x = None"
proof (induction x arbitrary: acc)
  case Nil
  then show ?case by simp
next
  case (Cons c x)
  then show ?case by (cases x) auto
qed

lemma constant_then_piece:
  assumes "backslash \<notin> set x" and "quote \<notin> set p" and "p \<noteq> []"
  shows "string_constants True [] (replace_quote x @ quote # p @ quote # rest) =
           map_option (Cons (replace_quote x)) (string_constants True [] rest)"
    and "quote \<notin> set rest' \<Longrightarrow>
         string_constants True [] (replace_quote x @ quote # p @ rest') = Some [replace_quote x]"
proof -
  from assms obtain d p' where p: "p = d # p'" and d: "d \<noteq> quote" and p': "quote \<notin> set p'"
    by (cases p) auto
  have "string_constants True [] (replace_quote x @ quote # d # p' @ quote # rest) =
      map_option (Cons (rev [] @ replace_quote x)) (string_constants False [] (d # p' @ quote # rest))"
    using d assms(1) by (rule inside_read)
  also have "string_constants False [] (d # p' @ quote # rest) = string_constants True [] rest"
    using outside_skip[of "d # p'" "[]" rest] d p' by simp
  finally show "string_constants True [] (replace_quote x @ quote # p @ quote # rest) =
           map_option (Cons (replace_quote x)) (string_constants True [] rest)"
    by (simp add: p)
  assume r: "quote \<notin> set rest'"
  have "string_constants True [] (replace_quote x @ quote # d # p' @ rest') =
      map_option (Cons (rev [] @ replace_quote x)) (string_constants False [] (d # p' @ rest'))"
    using d assms(1) by (rule inside_read)
  also have "string_constants False [] (d # p' @ rest') = Some []"
    using outside_end[of "d # p' @ rest'" "[]"] d p' r by simp
  finally show "string_constants True [] (replace_quote x @ quote # p @ rest') = Some [replace_quote x]"
    by (simp add: p)
qed

lemma statement_constants:
  assumes b: "backslash \<notin> set m" "backslash \<notin> set n" "backslash \<notin> set u"
    and s: "quote \<notin> set st" "backslash \<notin> set st"
    and r: "quote \<notin> set rs"
    and w: "quote \<notin> set w" "backslash \<notin> set w"
  shows "string_constants False [] (merge_sql m st n (replace_quote u) rs w)
         = Some [replace_quote m, st, replace_quote n, replace_quote u, w]"
proof -
  have 5: "string_constants True [] (replace_quote w @ quote # after_week @ []) = Some [replace_quote w]"
    by (rule constant_then_piece(2)) (use w pieces_quote_free pieces_not_empty in simp_all)
  have 4: "string_constants True []
             (replace_quote u @ quote # (after_reviewer @ rs @ after_risk_score) @ quote # (w @ quote # after_week))
       = map_option (Cons (replace_quote u)) (string_constants True [] (w @ quote # after_week))"
    by (rule constant_then_piece(1)) (use b r pieces_quote_free pieces_not_empty in simp_all)
  have 3: "\<And>rest. string_constants True [] (replace_quote n @ quote # after_notes @ quote # rest)
       = map_option (Cons (replace_quote n)) (string_constants True [] rest)"
    by (rule constant_then_piece(1)) (use b pieces_quote_free pieces_not_empty in simp_all)
  have 2: "\<And>rest. string_constants True [] (replace_quote st @ quote # after_status @ quote # rest)
       = map_option (Cons (replace_quote st)) (string_constants True [] rest)"
    by (rule constant_then_piece(1)) (use s pieces_quote_free pieces_not_empty in simp_all)
  have 1: "\<And>rest. string_constants True [] (replace_quote m @ quote # after_merchant @ quote # rest)
       = map_option (Cons (replace_quote m)) (string_constants True [] rest)"
    by (rule constant_then_piece(1)) (use b pieces_quote_free pieces_not_empty in simp_all)
  have 0: "\<And>rest. string_constants False [] (before_merchant @ quote # rest) = string_constants True [] rest"
    by (rule outside_skip) (rule pieces_quote_free)
  have ws: "replace_quote w = w" "replace_quote st = st"
    using s w by (simp_all add: replace_quote_id)
  show ?thesis
    unfolding merge_sql_pieces
    using 0 1 2[unfolded ws] 3 4 5[unfolded ws] by (simp add: quoted_def)
qed

lemma set_merge_sql:
  "set (merge_sql m st n u rs w) =
     set before_merchant \<union> set after_merchant \<union> set after_status \<union> set after_notes
     \<union> set after_reviewer \<union> set after_risk_score \<union> set after_week
     \<union> {quote} \<union> set m \<union> set st \<union> set n \<union> set u \<union> set rs \<union> set w"
  unfolding merge_sql_pieces by (auto simp: quoted_def set_replace_quote)

lemma plain_statement_backslash_free:
  "plain f \<Longrightarrow> backslash \<notin> set (statement f st)"
  unfolding statement_def set_merge_sql current_user_def
  using pieces_backslash_free backslash_free_status[of st]
  by (auto simp: plain_def set_replace_quote)

lemma plain_reads_as_merge:
  assumes "plain f"
  shows "reads_as_merge (risk_score_printed f) (statement f st) =
           Some (q_merchant_description (merchant_details f), status_text st, notes_text f,
                 session_user f, week_start_date_printed f)"
proof -
  from assms have c: "string_constants False [] (statement f st) =
      Some [replace_quote (q_merchant_description (merchant_details f)), status_text st,
            replace_quote (notes_text f), replace_quote (session_user f),
            week_start_date_printed f]"
    unfolding statement_def current_user_def
    by (intro statement_constants quote_free_status backslash_free_status)
       (simp_all add: plain_def)
  from assms have q: "undouble (week_start_date_printed f) = week_start_date_printed f"
    "undouble (status_text st) = status_text st"
    using quote_free_status[of st] by (simp_all add: plain_def undouble_id)
  have t: "merge_sql (q_merchant_description (merchant_details f)) (status_text st) (notes_text f)
            (replace_quote (session_user f)) (risk_score_printed f) (week_start_date_printed f)
           = statement f st"
    by (simp add: statement_def current_user_def)
  from plain_statement_backslash_free[OF assms, of st] c q t show ?thesis
    by (simp add: reads_as_merge_def undouble_replace_quote)
qed

lemma run_statement_plain:
  assumes "plain f"
  shows "run_statement other (submitted_at f) (risk_score_printed f)
           (q_risk_score (merchant_details f)) (q_week_start_date (merchant_details f))
           (statement f st) tbl =
         (if bind_parameter None (statement f st) then None
          else Some (merge_into (submitted_at f) (using_row f st) tbl))"
  by (simp add: run_statement_def plain_reads_as_merge[OF assms] using_row_def)

lemma submit_review_plain:
  assumes "plain f" and "status_selected f = Some st"
  shows "submit_review other f tbl =
         (if bind_parameter None (statement f st) then (tbl, St_exception)
          else (merge_into (submitted_at f) (using_row f st) tbl,
                St_success (''Status for '' @ quoted (q_merchant_description (merchant_details f))
                            @ '' updated to '' @ quoted (status_text st) @ ''!'')))"
  by (simp add: submit_review_def assms(2) run_statement_plain[OF assms(1)])

lemma bind_no_colon: "colon \<notin> set s \<Longrightarrow> \<not> bind_parameter before s"
  by (induction s arbitrary: before) auto

lemma no_colon_no_bind:
  assumes "colon \<notin> set (q_merchant_description (merchant_details f) @ notes_text f
                          @ session_user f @ risk_score_printed f @ week_start_date_printed f)"
  shows "\<not> bind_parameter None (statement f st)"
proof (rule bind_no_colon)
  show "colon \<notin> set (statement f st)"
    unfolding statement_def set_merge_sql current_user_def
    using pieces_colon_free colon_free_status[of st] assms
    by (auto simp: set_replace_quote)
qed

lemma bind_in_suffix:
  "bind_parameter (Some q) ys \<Longrightarrow> bind_parameter before (xs @ q # ys)"
  by (induction xs arbitrary: before) auto

lemma inside_plain:
  "d \<noteq> quote \<Longrightarrow> quote \<notin> set x \<Longrightarrow> backslash \<notin> set x \<Longrightarrow>
   string_constants True acc (x @ quote # d # rest) =
     map_option (Cons (rev acc @ x)) (string_constants False [] (d # rest))"
  using inside_read[of d x acc rest] by (simp add: replace_quote_id)

text \<open>
  Claim C10 at notes that are a backslash and a quote. The replacement doubles the
  quote and leaves the backslash; the engine takes the backslash with the first quote,
  the next two quotes for a doubled one, and reads on past the end of the notes: the
  text ends inside a constant, and it is not the statement of the template.
\<close>

theorem backslash_quote_constant_not_closed:
  "replace_quote [backslash, quote] = [backslash, quote, quote]
   \<and> string_constants False []
        (statement (acme_submission (Some Reviewed_Benign) 91 ''91'' [backslash, quote] 1000)
           Reviewed_Benign) = None
   \<and> reads_as_merge ''91''
        (statement (acme_submission (Some Reviewed_Benign) 91 ''91'' [backslash, quote] 1000)
           Reviewed_Benign) = None"
proof -
  let ?f = "acme_submission (Some Reviewed_Benign) 91 ''91'' [backslash, quote] 1000"
  let ?tail = "after_reviewer @ ''91'' @ after_risk_score"
  have s: "statement ?f Reviewed_Benign =
      before_merchant @ quote # (replace_quote ''Acme Co'' @ quote # after_merchant @ quote #
        (replace_quote ''Reviewed - Benign'' @ quote # after_status @ quote #
          (backslash # quote # quote # quote # after_notes @ quote # CHR ''R'' #
             (''EVIEWER_1'' @ quote # ?tail @ quote # CHR ''2'' #
                (''024-01-01'' @ quote # after_week)))))"
    by (simp add: statement_def merge_sql_pieces current_user_def acme_submission_def quoted_def)
  have 6: "string_constants True [] after_week = None"
    by (rule inside_end) (simp_all add: pieces_quote_free pieces_backslash_free)
  have 5: "string_constants False [] (CHR ''2'' # ''024-01-01'' @ quote # after_week) = None"
    using outside_skip[of "''2024-01-01''" "[]" after_week] 6 by simp
  have 4: "string_constants True [] (?tail @ quote # CHR ''2'' # (''024-01-01'' @ quote # after_week))
      = None"
    using inside_plain[of "CHR ''2''" ?tail "[]" "''024-01-01'' @ quote # after_week"] 5
    by (simp add: pieces_quote_free pieces_backslash_free)
  have 3: "string_constants False []
      (CHR ''R'' # ''EVIEWER_1'' @ quote # ?tail @ quote # CHR ''2'' # (''024-01-01'' @ quote # after_week))
      = None"
    using outside_skip[of "''REVIEWER_1''" "[]"
        "?tail @ quote # CHR ''2'' # (''024-01-01'' @ quote # after_week)"] 4
    by simp
  have "string_constants True []
      (backslash # quote # quote # quote # after_notes @ quote # CHR ''R'' #
             (''EVIEWER_1'' @ quote # ?tail @ quote # CHR ''2'' # (''024-01-01'' @ quote # after_week)))
     = string_constants True [quote, quote, quote, backslash]
         (after_notes @ quote # CHR ''R'' #
             (''EVIEWER_1'' @ quote # ?tail @ quote # CHR ''2'' # (''024-01-01'' @ quote # after_week)))"
    by simp
  also have "\<dots> = None"
    using inside_plain[of "CHR ''R''" after_notes "[quote, quote, quote, backslash]"
        "''EVIEWER_1'' @ quote # ?tail @ quote # CHR ''2'' # (''024-01-01'' @ quote # after_week)"] 3
    by (simp add: pieces_quote_free pieces_backslash_free)
  finally have 2: "string_constants True []
      (backslash # quote # quote # quote # after_notes @ quote # CHR ''R'' #
             (''EVIEWER_1'' @ quote # ?tail @ quote # CHR ''2'' # (''024-01-01'' @ quote # after_week)))
     = None" .
  have 1: "\<And>rest. string_constants True []
      (replace_quote ''Reviewed - Benign'' @ quote # after_status @ quote # rest) =
      map_option (Cons (replace_quote ''Reviewed - Benign'')) (string_constants True [] rest)"
    by (rule constant_then_piece(1)) (simp_all add: pieces_quote_free pieces_not_empty)
  have 0: "\<And>rest. string_constants True []
      (replace_quote ''Acme Co'' @ quote # after_merchant @ quote # rest) =
      map_option (Cons (replace_quote ''Acme Co'')) (string_constants True [] rest)"
    by (rule constant_then_piece(1)) (simp_all add: pieces_quote_free pieces_not_empty)
  have c: "string_constants False [] (statement ?f Reviewed_Benign) = None"
    unfolding s outside_skip[OF pieces_quote_free(1)] 0 1 2 by simp
  have "backslash \<in> set (statement ?f Reviewed_Benign)"
    unfolding s by simp
  then have r: "reads_as_merge ''91'' (statement ?f Reviewed_Benign) = None"
    by (simp add: reads_as_merge_def)
  from c r show ?thesis by simp
qed

section \<open>The upsert\<close>

lemma review_key_when_matched: "review_key (when_matched now s t) = review_key t"
  by (simp add: review_key_def when_matched_def)

lemma merge_on_key:
  "merge_on s t \<longleftrightarrow> review_key t = (src_merchant_description s, src_week_start_date s)"
  by (auto simp: merge_on_def review_key_def)




lemma acme_plain: "plain (acme_submission st score ''91'' ''first'' at)"
  "plain (acme_submission st score ''95'' ''second'' at)"
  "plain (acme_submission st score ''95'' ''see :ticket'' at)"
  by (simp_all add: plain_def acme_submission_def)

lemma acme_no_bind:
  "\<not> bind_parameter None (statement (acme_submission st score ''91'' ''first'' at) s)"
  "\<not> bind_parameter None (statement (acme_submission st score ''95'' ''second'' at) s)"
  by (rule no_colon_no_bind, simp add: acme_submission_def)+

lemma acme_bind:
  "bind_parameter None (statement (acme_submission st score ''95'' ''see :ticket'' at) s)"
proof -
  let ?f = "acme_submission st score ''95'' ''see :ticket'' at"
  have "statement ?f s =
      (before_merchant @ quoted (replace_quote ''Acme Co'') @ after_merchant
         @ quoted (status_text s) @ after_status)
      @ quote # (''see :ticket'' @ quote # after_notes @ quoted (replace_quote ''REVIEWER_1'')
         @ after_reviewer @ ''95'' @ after_risk_score @ quoted ''2024-01-01'' @ after_week)"
    by (simp add: statement_def merge_sql_pieces current_user_def acme_submission_def quoted_def)
  moreover have "bind_parameter (Some quote)
      (''see :ticket'' @ quote # after_notes @ quoted (replace_quote ''REVIEWER_1'')
         @ after_reviewer @ ''95'' @ after_risk_score @ quoted ''2024-01-01'' @ after_week)"
    by (simp add: word_char_def)
  ultimately show ?thesis by (simp only: bind_in_suffix)
qed

text \<open>
  Claim C5. A submission with no status selected leaves the review table as it was and
  shows the message \<^verbatim>\<open>Please select a status.\<close>
\<close>

theorem no_status_no_write:
  "submit_review other_statement (f\<lparr>status_selected := None\<rparr>) tbl =
     (tbl, St_error ''Please select a status.'')"
  by (simp add: submit_review_def)





text \<open>
  Claim C2 at a second submission whose notes read \<^verbatim>\<open>see :ticket\<close>. The first
  submission for the key inserts its row. In the statement of the second,
  \<^verbatim>\<open>:ticket\<close> is a bind parameter, the execution raises, and the row keeps the
  status, notes and review date of the first submission.
\<close>

theorem second_submission_refused:
  "submit_review other_statement (acme_submission (Some Reviewed_Blocked) 95 ''95'' ''see :ticket'' 2000)
     (fst (submit_review other_statement
             (acme_submission (Some Reviewed_Benign) 91 ''91'' ''first'' 1000) []))
   = ([\<lparr>t_merchant_description = ''Acme Co'', t_status = ''Reviewed - Benign'',
        t_notes = ''first'', t_reviewer = ''REVIEWER_1'', t_risk_score = 91,
        t_week_start_date = 19723, t_review_date = Some 1000\<rparr>],
      St_exception)"
proof -
  let ?a = "acme_submission (Some Reviewed_Benign) 91 ''91'' ''first'' 1000"
  let ?b = "acme_submission (Some Reviewed_Blocked) 95 ''95'' ''see :ticket'' 2000"
  have sa: "status_selected ?a = Some Reviewed_Benign" and sb: "status_selected ?b = Some Reviewed_Blocked"
    by (simp_all add: acme_submission_def)
  have "fst (submit_review other_statement ?a []) =
      merge_into (submitted_at ?a) (using_row ?a Reviewed_Benign) []"
    by (simp add: submit_review_plain[OF acme_plain(1) sa] acme_no_bind)
  also have "\<dots> =
      [\<lparr>t_merchant_description = ''Acme Co'', t_status = ''Reviewed - Benign'',
        t_notes = ''first'', t_reviewer = ''REVIEWER_1'', t_risk_score = 91,
        t_week_start_date = 19723, t_review_date = Some 1000\<rparr>]"
    by (simp add: merge_into_def when_not_matched_def review_date_default_def
        using_row_def acme_submission_def)
  finally have 1: "fst (submit_review other_statement ?a []) =
      [\<lparr>t_merchant_description = ''Acme Co'', t_status = ''Reviewed - Benign'',
        t_notes = ''first'', t_reviewer = ''REVIEWER_1'', t_risk_score = 91,
        t_week_start_date = 19723, t_review_date = Some 1000\<rparr>]" .
  show ?thesis
    unfolding 1 submit_review_plain[OF acme_plain(3) sb]
    by (simp add: acme_bind)
qed

text \<open>Rows written by plain submissions carry a review date.\<close>

lemma submit_review_dates:
  assumes "plain f" and "\<forall>t \<in> set tbl. t_review_date t \<noteq> None"
  shows "\<forall>t \<in> set (fst (submit_review other_statement f tbl)). t_review_date t \<noteq> None"
proof (cases "status_selected f")
  case None
  with assms(2) show ?thesis by (simp add: submit_review_def)
next
  case (Some st)
  show ?thesis
    unfolding submit_review_plain[OF assms(1) Some]
    using assms(2)
    by (auto simp: merge_into_def when_matched_def when_not_matched_def review_date_default_def)
qed

lemma submit_all_dates:
  "\<forall>f \<in> set fs. plain f \<Longrightarrow> \<forall>t \<in> set tbl. t_review_date t \<noteq> None \<Longrightarrow>
   \<forall>t \<in> set (submit_all other_statement fs tbl). t_review_date t \<noteq> None"
proof (induction fs arbitrary: tbl)
  case Nil
  then show ?case by simp
next
  case (Cons f fs)
  from Cons.prems have "\<forall>t \<in> set (fst (submit_review other_statement f tbl)). t_review_date t \<noteq> None"
    by (intro submit_review_dates) simp_all
  with Cons show ?case by simp
qed

end
